theory Spec2Isabelle
  imports Complex_Main "HOL-Library.Log_Nat"
begin

section \<open>Strings\<close>

text \<open>
  Source strings are modelled as \<^typ>\<open>string\<close>, a list of 8-bit characters. \<open>lower\<close>
  folds the letters \<open>A\<close> to \<open>Z\<close> and leaves every other character as it is: the
  keyword tables of the program are plain ASCII, and case folding outside ASCII is not
  modelled. \<open>contains s k\<close> is the substring test \<^verbatim>\<open>k in s\<close>.
\<close>

definition lower_char :: "char \<Rightarrow> char" where
  "lower_char c =
     (let n = (of_char c :: nat) in if 65 \<le> n \<and> n \<le> 90 then char_of (n + 32) else c)"

definition lower :: "string \<Rightarrow> string" where
  "lower s = map lower_char s"

fun startswith :: "string \<Rightarrow> string \<Rightarrow> bool" where
  "startswith s [] = True"
| "startswith [] (k # ks) = False"
| "startswith (c # cs) (k # ks) = (c = k \<and> startswith cs ks)"

fun contains :: "string \<Rightarrow> string \<Rightarrow> bool" where
  "contains [] k = (k = [])"
| "contains (c # cs) k = (startswith (c # cs) k \<or> contains cs k)"

text \<open>\<^verbatim>\<open>any(k in s for k in ks)\<close>\<close>

definition any_in :: "string list \<Rightarrow> string \<Rightarrow> bool" where
  "any_in ks s = list_ex (contains s) ks"

text \<open>\<^verbatim>\<open>sep.join(xs)\<close>\<close>

fun join :: "string \<Rightarrow> string list \<Rightarrow> string" where
  "join sep [] = []"
| "join sep [x] = x"
| "join sep (x # y # ys) = x @ sep @ join sep (y # ys)"

text \<open>
  \<^verbatim>\<open>s.strip()\<close> removes leading and trailing white space: the characters
  9 to 13, 28 to 32.
\<close>

definition isspace :: "char \<Rightarrow> bool" where
  "isspace c = (let n = (of_char c :: nat) in (9 \<le> n \<and> n \<le> 13) \<or> (28 \<le> n \<and> n \<le> 32))"

definition strip :: "string \<Rightarrow> string" where
  "strip s = rev (dropWhile isspace (rev (dropWhile isspace s)))"

section \<open>Double-precision arithmetic\<close>

text \<open>
  A Python float is an IEEE 754 double. The model keeps the exact rational value of a
  double and rounds after each operation: \<open>to_double\<close> rounds a rational to the nearest
  number with a 53-bit significand, ties to the even significand. The exponent range is
  not bounded: every quantity of the program is zero or has a magnitude between
  \<open>2\<^sup>-\<^sup>5\<^sup>7\<close> and \<open>1\<close>, far from the overflow and subnormal thresholds.
\<close>

definition pow2 :: "int \<Rightarrow> rat" where
  "pow2 e = (if 0 \<le> e then 2 ^ nat e else 1 / 2 ^ nat (- e))"

text \<open>For \<open>0 < x\<close>, \<open>expo x\<close> is the exponent \<open>e\<close> with \<open>2\<^sup>e \<le> x < 2\<^sup>e\<^sup>+\<^sup>1\<close>.\<close>

definition expo :: "rat \<Rightarrow> int" where
  "expo x = (if 1 \<le> x then bitlen \<lfloor>x\<rfloor> - 1 else - bitlen (\<lceil>1 / x\<rceil> - 1))"

definition round_half_even :: "rat \<Rightarrow> int" where
  "round_half_even x =
     (let f = \<lfloor>x\<rfloor>; d = x - of_int f
      in if d < 1 / 2 then f else if 1 / 2 < d then f + 1 else if even f then f else f + 1)"

definition to_double :: "rat \<Rightarrow> rat" where
  "to_double x =
     (if x = 0 then 0
      else let u = pow2 (expo \<bar>x\<bar> - 52)
           in sgn x * (of_int (round_half_even (\<bar>x\<bar> / u)) * u))"

definition fadd :: "rat \<Rightarrow> rat \<Rightarrow> rat" where
  "fadd x y = to_double (x + y)"

definition fsub :: "rat \<Rightarrow> rat \<Rightarrow> rat" where
  "fsub x y = to_double (x - y)"

definition fmul :: "rat \<Rightarrow> rat \<Rightarrow> rat" where
  "fmul x y = to_double (x * y)"

text \<open>
  \<^verbatim>\<open>round(x, 2)\<close>: the exact value of \<open>x\<close> rounded to two decimals, ties to even, and
  the result read back as a double.
\<close>

definition round2 :: "rat \<Rightarrow> rat" where
  "round2 x = to_double (of_int (round_half_even (x * 100)) / 100)"

section \<open>Data model\<close>

text \<open>
  The fields \<^verbatim>\<open>id\<close> and \<^verbatim>\<open>context\<close> of the source are \<open>persona_id\<close> and
  \<open>persona_context\<close> here.
\<close>

record Persona =
  persona_id :: string
  name :: string
  archetype :: string
  demographics :: "(string \<times> string) list"
  traits :: "string list"
  goals :: "string list"
  tech_literacy :: string
  risk_aversion :: string
  tone :: string
  pain_points :: "string list"
  motivations :: "string list"
  domain_expertise :: "string list"
  persona_context :: string

section \<open>Follow-up questions\<close>

definition q_analytics :: string where
  "q_analytics = ''Which success metrics and target thresholds are defined?''"

definition q_onboarding :: string where
  "q_onboarding = ''Can users skip steps and finish later?''"

definition q_trial :: string where
  "q_trial = ''Is there a free trial or grace period before payment is required?''"

definition q_accessibility :: string where
  "q_accessibility = ''Have you tested keyboard-only navigation and screen-reader labels?''"

definition q_privacy :: string where
  "q_privacy = ''What data is collected and how is it governed?''"

definition q_fallback :: string where
  "q_fallback = ''What is the primary job-to-be-done for this feature?''"

text \<open>\<^verbatim>\<open>if cond: qs.append(q)\<close>\<close>

definition append_if :: "bool \<Rightarrow> 'a \<Rightarrow> 'a list \<Rightarrow> 'a list" where
  "append_if b x xs = (if b then xs @ [x] else xs)"

definition extract_followups :: "Persona \<Rightarrow> string \<Rightarrow> string list" where
  "extract_followups p spec =
     (let qs = [];
          low = lower spec;
          qs = append_if (contains low ''analytics'') q_analytics qs;
          qs = append_if (contains low ''onboarding'') q_onboarding qs;
          qs = append_if (contains low ''paywall'' \<or> contains low ''pricing'' \<or> contains low ''trial'')
                 q_trial qs;
          qs = append_if
                 (any_in [''accessibility'', ''aria'', ''keyboard'', ''contrast'', ''wcag''] low)
                 q_accessibility qs;
          qs = append_if (contains low ''privacy'' \<or> contains low ''gdpr'') q_privacy qs;
          qs = append_if (qs = []) q_fallback qs
      in take 6 qs)"


section \<open>Random source\<close>

text \<open>
  The generator of the standard library is a parameter. A random source has a state of
  type \<open>'g\<close>; \<open>rs_seed\<close> is \<^verbatim>\<open>random.seed\<close>, which replaces the state by one that the
  seed alone determines; \<open>rs_random\<close> is \<^verbatim>\<open>random.random\<close>; \<open>rs_randbelow n\<close> draws the
  index below \<open>n\<close> from which the library computes \<^verbatim>\<open>randint\<close> and \<^verbatim>\<open>choice\<close>.
\<close>

record 'g RandomSource =
  rs_seed :: "int \<Rightarrow> 'g"
  rs_random :: "'g \<Rightarrow> rat \<times> 'g"
  rs_randbelow :: "nat \<Rightarrow> 'g \<Rightarrow> nat \<times> 'g"

datatype py_error = IndexError

definition randint :: "'g RandomSource \<Rightarrow> int \<Rightarrow> int \<Rightarrow> 'g \<Rightarrow> int \<times> 'g" where
  "randint R a b g = (let (k, g') = rs_randbelow R (nat (b - a + 1)) g in (a + int k, g'))"

text \<open>
  \<^verbatim>\<open>random.choice(xs)\<close> raises \<^verbatim>\<open>IndexError\<close> on an empty list, and so does the
  indexing \<^verbatim>\<open>xs[i]\<close> if the index drawn is out of range.
\<close>

definition choice :: "'g RandomSource \<Rightarrow> 'a list \<Rightarrow> 'g \<Rightarrow> py_error + 'a \<times> 'g" where
  "choice R xs g =
     (if xs = [] then Inl IndexError
      else let (i, g') = rs_randbelow R (length xs) g
           in if i < length xs then Inr (xs ! i, g') else Inl IndexError)"

text \<open>
  What the library promises of its generator: \<^verbatim>\<open>random()\<close> is a double in \<open>[0, 1)\<close>, and
  the index drawn below a positive \<open>n\<close> is less than \<open>n\<close>.
\<close>

definition is_double :: "rat \<Rightarrow> bool" where
  "is_double x = (to_double x = x)"

definition unit_draw :: "rat \<Rightarrow> bool" where
  "unit_draw r = (is_double r \<and> 0 \<le> r \<and> r < 1)"

definition randbelow_in_range :: "'g RandomSource \<Rightarrow> bool" where
  "randbelow_in_range R = (\<forall>n g. 0 < n \<longrightarrow> fst (rs_randbelow R n g) < n)"

section \<open>Confidence score\<close>

definition hedge_words :: "string list" where
  "hedge_words = [''unclear'', ''confusing'', ''not sure'']"

definition score_confidence :: "'g RandomSource \<Rightarrow> Persona \<Rightarrow> string \<Rightarrow> 'g \<Rightarrow> rat \<times> 'g" where
  "score_confidence R p text g =
     (let base = to_double 0.55;
          base = (if tech_literacy p = ''expert'' then fadd base (to_double 0.15) else base);
          base = (if risk_aversion p = ''high'' then fsub base (to_double 0.05) else base);
          base = (if any_in hedge_words (lower text) then fsub base (to_double 0.2) else base);
          (r, g') = rs_random R g
      in (max (to_double 0.05)
            (min (to_double 0.95) (fadd base (fmul (fsub r (to_double 0.5)) (to_double 0.1)))),
          g'))"

section \<open>Heuristic reply\<close>

record Reasoning =
  salient_traits :: "string list"
  assumptions :: "string list"
  keywords_hit :: "string list"
  confidence :: rat
  follow_ups :: "string list"

text \<open>
  The \<^verbatim>\<open>meta\<close> dictionary of a message is empty, the reasoning record of a heuristic
  reply, or the pair of \<^verbatim>\<open>source\<close> and \<^verbatim>\<open>turn\<close> of an agent reply.
\<close>

datatype Meta = NoMeta | ReasoningMeta Reasoning | AgentMeta string int

definition newline :: string where
  "newline = [CHR 0x0A]"

definition fallback_reply :: string where
  "fallback_reply = ''Looks promising; would like to test a clickable prototype.''"

text \<open>
  The rule chain of \<^verbatim>\<open>_heuristic_persona_reply\<close> on the lower-cased text, in the order of
  the source; the result is the triple \<open>(concerns, kudos, suggestions)\<close>.
\<close>

definition commentary :: "Persona \<Rightarrow> string \<Rightarrow> string list \<times> string list \<times> string list" where
  "commentary p low =
     (let concerns = []; kudos = []; suggestions = [];
          arch = lower (archetype p);
          concerns = append_if (contains low ''onboarding'' \<or> contains low ''signup'')
            ''Onboarding may be too long; consider progressive disclosure.'' concerns;
          suggestions = append_if (contains low ''dashboard'')
            ''Surface the top 3 KPIs above the fold; defer advanced charts.'' suggestions;
          concerns = append_if (contains low ''mobile'')
            ''Ensure tap targets are >= 44px and content is responsive.'' concerns;
          suggestions = append_if
            (any_in [''access'', ''aria'', ''keyboard'', ''contrast'', ''wcag'', ''color''] low)
            ''Add aria-labels, visible focus states, and non-color cues to meet WCAG 2.2 AA.''
            suggestions;
          concerns = append_if (any_in [''paywall'', ''pricing'', ''trial''] low)
            ''Hard paywalls can increase drop-off; test a trial or freemium.'' concerns;
          concerns = append_if (contains low ''privacy'' \<or> contains low ''gdpr'')
            ''Clarify data processing, retention, and opt-out; add a DPIA summary.'' concerns;
          suggestions = append_if (contains low ''api'' \<or> contains low ''export'')
            ''Provide API endpoints and bulk export options for power users.'' suggestions;
          concerns = append_if (startswith arch ''security'' \<or> contains arch ''security'')
            ''Need SSO/MFA, audit logs, and data retention controls.'' concerns;
          suggestions = append_if (contains arch ''product manager'')
            ''Define success metrics and an A/B test plan.'' suggestions;
          concerns = append_if (contains arch ''screen'' \<or> contains arch ''accessibility'')
            ''Verify no keyboard traps; test with VoiceOver/NVDA.'' concerns;
          kudos = append_if (contains arch ''gen z'' \<or> tone p = ''casual'')
            ''Looks fun if visuals stay bold with quick motion affordances.'' kudos
      in (concerns, kudos, suggestions))"

definition tracked_keywords :: "string list" where
  "tracked_keywords = [''onboarding'', ''dashboard'', ''mobile'', ''access'', ''paywall'',
     ''pricing'', ''aria'', ''privacy'', ''gdpr'', ''keyboard'', ''contrast'']"

definition heuristic_persona_reply ::
  "'g RandomSource \<Rightarrow> Persona \<Rightarrow> string \<Rightarrow> string \<Rightarrow> 'g \<Rightarrow> (string \<times> Reasoning) \<times> 'g" where
  "heuristic_persona_reply R p user_msg spec g =
     (let low = lower (user_msg @ '' '' @ spec);
          (concerns, kudos, suggestions) = commentary p low;
          (conf, g') = score_confidence R p user_msg g;
          followups = extract_followups p spec;
          summary = [];
          summary = append_if (kudos \<noteq> []) (''**What I like:** '' @ join ''; '' kudos) summary;
          summary = append_if (concerns \<noteq> []) (''**Concerns:** '' @ join ''; '' concerns) summary;
          summary = append_if (suggestions \<noteq> [])
            (''**Suggestions:** '' @ join ''; '' suggestions) summary;
          summary = append_if (summary = []) fallback_reply summary;
          reasoning = \<lparr> salient_traits = take 3 (traits p),
            assumptions = [''User intent inferred from provided spec'', ''No live usability data''],
            keywords_hit = filter (contains low) tracked_keywords,
            confidence = round2 conf,
            follow_ups = followups \<rparr>;
          reply = join (newline @ newline) summary
      in ((reply, reasoning), g'))"



section \<open>Conversation driver\<close>

record Message =
  role :: string
  content :: string
  meta :: Meta

record Conversation =
  feature_id :: string
  feature_title :: string
  feature_spec :: string
  persona :: Persona
  seed :: int
  messages :: "Message list"
  created_at :: string

text \<open>
  What \<^verbatim>\<open>simulate\<close> reads of its environment: whether the agent library was imported,
  the two credentials (\<^verbatim>\<open>os.getenv\<close> gives \<^verbatim>\<open>None\<close> or a string), the wall clock as
  \<^verbatim>\<open>int(time.time())\<close> and as the ISO text of \<^verbatim>\<open>utcnow()\<close>.
\<close>

record Env =
  tt_available :: bool
  openai_api_key :: "string option"
  azure_openai_key :: "string option"
  unix_time :: int
  utcnow_iso :: string

text \<open>Truth value of \<^verbatim>\<open>os.getenv(k)\<close>: set, and not the empty string.\<close>

definition truthy :: "string option \<Rightarrow> bool" where
  "truthy v = (case v of None \<Rightarrow> False | Some s \<Rightarrow> s \<noteq> [])"

definition agent_enabled :: "Env \<Rightarrow> bool" where
  "agent_enabled env =
     (tt_available env \<and> (truthy (openai_api_key env) \<or> truthy (azure_openai_key env)))"

text \<open>
  The agent library is a parameter too: \<open>TinyPerson\<close> builds an agent of type \<open>'a\<close> from
  its name, description and memory, and \<open>listen_and_act\<close> gives the text of its response
  to a prompt together with the agent after the exchange.
\<close>

record 'a TinyTroupe =
  TinyPerson :: "string \<Rightarrow> string \<Rightarrow> string \<Rightarrow> 'a"
  listen_and_act :: "'a \<Rightarrow> string \<Rightarrow> string \<times> 'a"

text \<open>\<^verbatim>\<open>str(n)\<close> for an integer.\<close>

fun str_nat :: "nat \<Rightarrow> string" where
  "str_nat n = (if n < 10 then [char_of (48 + n)] else str_nat (n div 10) @ [char_of (48 + n mod 10)])"

definition str_int :: "int \<Rightarrow> string" where
  "str_int i = (if i < 0 then ''-'' @ str_nat (nat (- i)) else str_nat (nat i))"

text \<open>\<^verbatim>\<open>range(a, b)\<close>\<close>

definition py_range :: "int \<Rightarrow> int \<Rightarrow> int list" where
  "py_range a b = [a..b - 1]"

definition append_message :: "Message \<Rightarrow> Conversation \<Rightarrow> Conversation" where
  "append_message m conv = conv\<lparr>messages := messages conv @ [m]\<rparr>"

definition user_open_text :: "string \<Rightarrow> string \<Rightarrow> string" where
  "user_open_text title spec =
     ''Please review the feature: '' @ title @ ''. Key context:'' @ newline @ spec @ newline
       @ ''Share candid feedback in your usual tone.''"

text \<open>
  The constructor call at the head of \<^verbatim>\<open>simulate\<close>; \<open>n\<close> is the number drawn for the
  identifier. \<^verbatim>\<open>x or y\<close> on strings is \<open>y\<close> when \<open>x\<close> is empty.
\<close>

definition new_conversation ::
  "Env \<Rightarrow> int \<Rightarrow> Persona \<Rightarrow> string \<Rightarrow> string \<Rightarrow> int \<Rightarrow> Conversation" where
  "new_conversation env n p title spec sd =
     \<lparr> feature_id = str_int (unix_time env) @ ''-'' @ str_int n,
       feature_title = (if strip title = [] then ''Untitled Feature'' else strip title),
       feature_spec = strip spec,
       persona = p,
       seed = sd,
       messages = [],
       created_at = utcnow_iso env @ ''Z'' \<rparr>"

text \<open>
  The loop of the agent branch, over \<^verbatim>\<open>range(turns)\<close>; its state is the conversation,
  the agent, the current prompt and the random source.
\<close>

fun agent_loop ::
  "'g RandomSource \<Rightarrow> 'a TinyTroupe \<Rightarrow> Persona \<Rightarrow> string \<Rightarrow> int list
     \<Rightarrow> Conversation \<times> 'a \<times> string \<times> 'g \<Rightarrow> py_error + Conversation \<times> 'g" where
  "agent_loop R T p spec [] (conv, tiny_person, prompt, g) = Inr (conv, g)"
| "agent_loop R T p spec (t # ts) (conv, tiny_person, prompt, g) =
     (let (response, tiny_person) = listen_and_act T tiny_person prompt;
          conv = append_message
            \<lparr>role = ''persona'', content = response, meta = AgentMeta ''tinytroupe'' (t + 1)\<rparr> conv;
          follow_qs = extract_followups p spec
      in case choice R follow_qs g of
           Inl e \<Rightarrow> Inl e
         | Inr (q, g) \<Rightarrow>
             (let prompt = ''Follow-up: '' @ q;
                  conv = append_message \<lparr>role = ''user'', content = prompt, meta = NoMeta\<rparr> conv
              in agent_loop R T p spec ts (conv, tiny_person, prompt, g)))"

text \<open>
  The loop of the heuristic branch, over \<^verbatim>\<open>range(1, turns)\<close>; \<open>fu\<close> is the list
  \<^verbatim>\<open>meta["follow_ups"]\<close> of the first reply.
\<close>

fun heuristic_loop ::
  "'g RandomSource \<Rightarrow> Persona \<Rightarrow> string \<Rightarrow> string list \<Rightarrow> int list
     \<Rightarrow> Conversation \<times> 'g \<Rightarrow> py_error + Conversation \<times> 'g" where
  "heuristic_loop R p spec fu [] (conv, g) = Inr (conv, g)"
| "heuristic_loop R p spec fu (t # ts) (conv, g) =
     (case choice R fu g of
        Inl e \<Rightarrow> Inl e
      | Inr (q, g) \<Rightarrow>
          (let conv = append_message \<lparr>role = ''user'', content = q, meta = NoMeta\<rparr> conv;
               ((follow_reply, meta2), g) = heuristic_persona_reply R p q spec g;
               conv = append_message
                 \<lparr>role = ''persona'', content = follow_reply, meta = ReasoningMeta meta2\<rparr> conv
           in heuristic_loop R p spec fu ts (conv, g)))"

text \<open>
  \<^verbatim>\<open>SimulationEngine.simulate\<close>. The argument \<open>g0\<close> is the state of the random source
  before the call, which seeding discards; the result is the conversation and the state
  of the random source after the call, or the error raised. The source never reads its
  argument \<^verbatim>\<open>system_preamble\<close> nor the \<^verbatim>\<open>model\<close> of the engine; they are left out.
\<close>

definition simulate ::
  "'g RandomSource \<Rightarrow> 'a TinyTroupe \<Rightarrow> Env \<Rightarrow> 'g \<Rightarrow> Persona \<Rightarrow> string \<Rightarrow> string \<Rightarrow> int \<Rightarrow> int
     \<Rightarrow> py_error + Conversation \<times> 'g" where
  "simulate R T env g0 p title spec turns sd =
     (let g = rs_seed R sd;
          (n, g) = randint R 1000 9999 g;
          conv = new_conversation env n p title spec sd;
          user_open = user_open_text title spec;
          conv = append_message \<lparr>role = ''user'', content = user_open, meta = NoMeta\<rparr> conv
      in if agent_enabled env then
           (let tiny_person = TinyPerson T (name p)
                  (archetype p @ ''. Traits: '' @ join '', '' (traits p) @ ''. Goals: ''
                     @ join '', '' (goals p) @ ''.'')
                  (''Context: '' @ persona_context p @ ''. Pain points: ''
                     @ join '', '' (pain_points p) @ ''. Domain expertise: ''
                     @ join '', '' (domain_expertise p) @ ''.'');
                prompt = user_open
            in agent_loop R T p spec (py_range 0 turns) (conv, tiny_person, prompt, g))
         else
           (let ((reply, meta1), g) = heuristic_persona_reply R p user_open spec g;
                conv = append_message
                  \<lparr>role = ''persona'', content = reply, meta = ReasoningMeta meta1\<rparr> conv
            in heuristic_loop R p spec (follow_ups meta1) (py_range 1 turns) (conv, g)))"

section \<open>Properties of a conversation\<close>

text \<open>The roles \<open>rs\<close> alternate between \<open>a\<close> and \<open>b\<close>, starting with \<open>a\<close>.\<close>

fun alternating :: "string \<Rightarrow> string \<Rightarrow> string list \<Rightarrow> bool" where
  "alternating a b [] = True"
| "alternating a b (r # rs) = (r = a \<and> alternating b a rs)"

definition role_count :: "string \<Rightarrow> Conversation \<Rightarrow> nat" where
  "role_count r conv = length (filter (\<lambda>m. role m = r) (messages conv))"



text \<open>The conversation that a call returns, if it returns one.\<close>

definition result_conversation :: "py_error + Conversation \<times> 'g \<Rightarrow> Conversation option" where
  "result_conversation res = (case res of Inl e \<Rightarrow> None | Inr (conv, g) \<Rightarrow> Some conv)"

section \<open>Sample inputs\<close>

text \<open>
  A random source that counts: the state is a number, a draw reads it and adds one.
  The agent \<open>echo_agent\<close> answers every prompt with the same text.
\<close>

definition counter_source :: "nat RandomSource" where
  "counter_source =
     \<lparr> rs_seed = (\<lambda>s. nat \<bar>s\<bar>),
       rs_random = (\<lambda>g. (of_nat (g mod 8) / 8, Suc g)),
       rs_randbelow = (\<lambda>n g. (g mod n, Suc g)) \<rparr>"

definition echo_agent :: "unit TinyTroupe" where
  "echo_agent = \<lparr> TinyPerson = (\<lambda>n d m. ()), listen_and_act = (\<lambda>a prompt. (''Noted.'', a)) \<rparr>"

definition offline_env :: Env where
  "offline_env = \<lparr> tt_available = False, openai_api_key = None, azure_openai_key = None,
     unix_time = 1700000000, utcnow_iso = ''2023-11-14T22:13:20'' \<rparr>"

definition sample_persona :: Persona where
  "sample_persona =
     \<lparr> persona_id = ''p1'', name = ''Ada'', archetype = ''Security Engineer'',
       demographics = [], traits = [''careful'', ''direct''], goals = [''ship safely''],
       tech_literacy = ''expert'', risk_aversion = ''low'', tone = ''neutral'',
       pain_points = [], motivations = [], domain_expertise = [''identity''],
       persona_context = ''B2B SaaS'' \<rparr>"

definition plain_persona :: Persona where
  "plain_persona =
     \<lparr> persona_id = ''p2'', name = ''Sam'', archetype = ''Student'',
       demographics = [], traits = [''curious''], goals = [''learn fast''],
       tech_literacy = ''intermediate'', risk_aversion = ''medium'', tone = ''neutral'',
       pain_points = [], motivations = [], domain_expertise = [],
       persona_context = ''Evening classes'' \<rparr>"

section \<open>Properties of the follow-up extraction\<close>

lemma length_append_if: "length (append_if b x xs) \<le> Suc (length xs)"
  by (simp add: append_if_def)

lemma append_if_Nil_iff: "append_if b x xs = [] \<longleftrightarrow> \<not> b \<and> xs = []"
  by (simp add: append_if_def)

lemma extract_followups_nonempty: "extract_followups p spec \<noteq> []"
  by (simp add: extract_followups_def Let_def append_if_def)



text \<open>
  C7: for the specification text about a paywall with a trial and a GDPR-compliant export,
  \<open>extract_followups\<close> returns the free-trial question and the data-governance question,
  the trial question first.
\<close>

theorem extract_followups_paywall_gdpr:
  "extract_followups p ''Add a paywall with a 7-day trial and GDPR-compliant data export''
     = [q_trial, q_privacy]"
proof -
  let ?low = "lower ''Add a paywall with a 7-day trial and GDPR-compliant data export''"
  have low: "?low = ''add a paywall with a 7-day trial and gdpr-compliant data export''"
    by code_simp
  have a: "\<not> contains ?low ''analytics''" unfolding low by code_simp
  have b: "\<not> contains ?low ''onboarding''" unfolding low by code_simp
  have c: "contains ?low ''paywall''" unfolding low by code_simp
  have d: "\<not> any_in [''accessibility'', ''aria'', ''keyboard'', ''contrast'', ''wcag''] ?low"
    unfolding low by code_simp
  have e: "contains ?low ''gdpr''" unfolding low by code_simp
  show ?thesis
    unfolding extract_followups_def Let_def
    by (simp only: a b c d e append_if_def if_True if_False simp_thms append_Nil append_Cons
        take_Suc_Cons take_Nil list.simps) (simp add: q_trial_def q_privacy_def q_fallback_def)
qed

section \<open>Composition of the reply\<close>




section \<open>Rounding to a double\<close>

text \<open>
  The exponent found by \<open>expo\<close> is the right one, rounding to the nearest integer is
  monotone, and so \<open>to_double\<close> is monotone. \<open>to_double_eval\<close> computes a rounding from
  its exponent and significand; the lemmas after it are the roundings that the confidence
  score meets.
\<close>

lemma pow2_powi: "pow2 e = 2 powi e"
  by (simp add: pow2_def power_int_def inverse_eq_divide power_one_over)

lemma pow2_pos: "0 < pow2 e"
  by (simp add: pow2_powi)

lemma pow2_add: "pow2 (a + b) = pow2 a * pow2 b"
  by (simp add: pow2_powi power_int_add)

lemma pow2_mono: "a \<le> b \<Longrightarrow> pow2 a \<le> pow2 b"
  by (simp add: pow2_powi power_int_increasing)

lemma pow2_less_cancel: "pow2 a < pow2 b \<Longrightarrow> a < b"
proof (rule ccontr)
  assume lt: "pow2 a < pow2 b" and "\<not> a < b"
  then have "b \<le> a" by simp
  then have "pow2 b \<le> pow2 a" by (rule pow2_mono)
  with lt show False by simp
qed

lemma pow2_shift52: "pow2 e = pow2 (e - 52) * 2 ^ 52"
  using pow2_add [of "e - 52" 52] by (simp add: pow2_def [of 52])

lemma pow2_shift53: "pow2 (e + 1) = pow2 (e - 52) * 2 ^ 53"
  using pow2_add [of "e - 52" 53] by (simp add: pow2_def [of 53] add.commute)

lemma pow2_nonneg_exp: "0 \<le> e \<Longrightarrow> pow2 e = of_int (2 ^ nat e)"
  by (simp add: pow2_def)

lemma expo_bounds_ge1:
  assumes "1 \<le> x"
  shows "pow2 (expo x) \<le> x \<and> x < pow2 (expo x + 1)"
proof -
  let ?n = "\<lfloor>x\<rfloor>"
  from assms have n: "0 < ?n" by simp
  from bitlen_bounds [OF n]
  have lo: "2 ^ nat (bitlen ?n - 1) \<le> ?n" and hi: "?n < 2 ^ nat (bitlen ?n)" by simp_all
  from n have b1: "1 \<le> bitlen ?n"
    using bitlen_eq_zero_iff [of ?n] bitlen_nonneg [of ?n] by linarith
  have e: "expo x = bitlen ?n - 1" using assms by (simp add: expo_def)
  have "pow2 (expo x) = of_int (2 ^ nat (bitlen ?n - 1))"
    using b1 by (simp add: e pow2_nonneg_exp)
  also have "\<dots> \<le> of_int ?n" using lo by (simp only: of_int_le_iff)
  also have "\<dots> \<le> x" by simp
  finally have A: "pow2 (expo x) \<le> x" .
  from hi have "?n + 1 \<le> 2 ^ nat (bitlen ?n)" by simp
  then have "(of_int (?n + 1) :: rat) \<le> of_int (2 ^ nat (bitlen ?n))"
    by (simp only: of_int_le_iff)
  moreover have "x < of_int (?n + 1)" by linarith
  moreover have "pow2 (expo x + 1) = of_int (2 ^ nat (bitlen ?n))"
    using b1 by (simp add: e pow2_nonneg_exp)
  ultimately have B: "x < pow2 (expo x + 1)" by simp
  from A B show ?thesis ..
qed

lemma expo_bounds_lt1:
  assumes "0 < x" "x < 1"
  shows "pow2 (expo x) \<le> x \<and> x < pow2 (expo x + 1)"
proof -
  let ?c = "\<lceil>1 / x\<rceil>"
  let ?n = "?c - 1"
  let ?k = "bitlen ?n"
  from assms have inv: "1 < 1 / x" by simp
  then have "1 < ?c" by (simp add: less_ceiling_iff)
  then have n: "0 < ?n" by simp
  from bitlen_bounds [OF n]
  have lo: "2 ^ nat (?k - 1) \<le> ?n" and hi: "?n < 2 ^ nat ?k" by simp_all
  from n have k1: "1 \<le> ?k"
    using bitlen_eq_zero_iff [of ?n] bitlen_nonneg [of ?n] by linarith
  have e: "expo x = - ?k" using assms by (simp add: expo_def)
  have p1: "pow2 (expo x) = 1 / of_int (2 ^ nat ?k)"
    using k1 by (simp add: e pow2_def)
  have p2: "pow2 (expo x + 1) = 1 / of_int (2 ^ nat (?k - 1))"
  proof (cases "?k = 1")
    case True
    then show ?thesis by (simp add: e pow2_def)
  next
    case False
    with k1 have "1 < ?k" by simp
    then show ?thesis by (simp add: e pow2_def)
  qed
  have "1 / x \<le> of_int ?c" by simp
  also have "(of_int ?c :: rat) \<le> of_int (2 ^ nat ?k)"
    using hi by (simp only: of_int_le_iff)
  finally have "1 / x \<le> of_int (2 ^ nat ?k)" .
  then have A: "1 / of_int (2 ^ nat ?k) \<le> x"
    using assms(1) by (simp add: field_simps)
  have "(of_int (2 ^ nat (?k - 1)) :: rat) \<le> of_int ?n"
    using lo by (simp only: of_int_le_iff)
  also have "(of_int ?n :: rat) < 1 / x"
    using ceiling_correct [of "1 / x"] by simp
  finally have "of_int (2 ^ nat (?k - 1)) < 1 / x" .
  then have B: "x < 1 / of_int (2 ^ nat (?k - 1))"
    using assms(1) by (simp add: field_simps)
  from A B p1 p2 show ?thesis by simp
qed

lemma expo_bounds:
  assumes "0 < x"
  shows "pow2 (expo x) \<le> x" and "x < pow2 (expo x + 1)"
  using assms expo_bounds_ge1 [of x] expo_bounds_lt1 [of x] by (cases "1 \<le> x"; simp)+

lemma expo_unique:
  assumes "0 < x" "pow2 e \<le> x" "x < pow2 (e + 1)"
  shows "expo x = e"
proof -
  from expo_bounds [OF assms(1)] assms
  have a: "pow2 (expo x) < pow2 (e + 1)" and b: "pow2 e < pow2 (expo x + 1)" by simp_all
  from a have "expo x < e + 1" by (rule pow2_less_cancel)
  moreover from b have "e < expo x + 1" by (rule pow2_less_cancel)
  ultimately show ?thesis by simp
qed

lemma expo_mono:
  assumes "0 < x" "x \<le> y"
  shows "expo x \<le> expo y"
proof -
  from assms have y: "0 < y" by simp
  from expo_bounds [OF assms(1)] expo_bounds [OF y] assms(2)
  have "pow2 (expo x) < pow2 (expo y + 1)" by simp
  then have "expo x < expo y + 1" by (rule pow2_less_cancel)
  then show ?thesis by simp
qed

lemma rhe_of_int: "round_half_even (of_int k) = k"
  by (simp add: round_half_even_def)

lemma rhe_range: "\<lfloor>x\<rfloor> \<le> round_half_even x \<and> round_half_even x \<le> \<lfloor>x\<rfloor> + 1"
  by (simp add: round_half_even_def Let_def)

lemma rhe_mono:
  assumes "x \<le> y"
  shows "round_half_even x \<le> round_half_even y"
proof (cases "\<lfloor>x\<rfloor> = \<lfloor>y\<rfloor>")
  case True
  with assms have "x - of_int \<lfloor>x\<rfloor> \<le> y - of_int \<lfloor>y\<rfloor>" by simp
  with True show ?thesis
    by (auto simp add: round_half_even_def Let_def)
next
  case False
  from assms have "\<lfloor>x\<rfloor> \<le> \<lfloor>y\<rfloor>" by (rule floor_mono)
  with False have "\<lfloor>x\<rfloor> + 1 \<le> \<lfloor>y\<rfloor>" by simp
  with rhe_range [of x] rhe_range [of y] show ?thesis by linarith
qed

lemma rhe_near:
  assumes "of_int m - 1 / 2 < x" "x < of_int m + 1 / 2"
  shows "round_half_even x = m"
proof (cases "of_int m \<le> x")
  case True
  with assms have "\<lfloor>x\<rfloor> = m" by (intro floor_unique) simp_all
  with assms show ?thesis by (simp add: round_half_even_def Let_def)
next
  case False
  with assms have "\<lfloor>x\<rfloor> = m - 1" by (intro floor_unique) simp_all
  with assms False show ?thesis by (simp add: round_half_even_def Let_def)
qed

lemma rhe_tie:
  assumes "x = of_int m + 1 / 2"
  shows "round_half_even x = (if even m then m else m + 1)"
proof -
  from assms have "\<lfloor>x\<rfloor> = m" by (intro floor_unique) simp_all
  with assms show ?thesis by (simp add: round_half_even_def Let_def)
qed

lemma to_double_0: "to_double 0 = 0"
  by (simp add: to_double_def)

lemma to_double_pos_eq:
  "0 < x \<Longrightarrow> to_double x
     = of_int (round_half_even (x / pow2 (expo x - 52))) * pow2 (expo x - 52)"
  by (simp add: to_double_def Let_def)

lemma to_double_minus: "to_double (- x) = - to_double x"
  by (simp add: to_double_def Let_def sgn_minus)

lemma to_double_eval:
  assumes "0 < x" "pow2 e \<le> x" "x < pow2 (e + 1)"
    and "round_half_even (x / pow2 (e - 52)) = m"
  shows "to_double x = of_int m * pow2 (e - 52)"
  using assms expo_unique [OF assms(1-3)] by (simp add: to_double_pos_eq)

lemma scaled_range:
  assumes "0 < x"
  shows "of_int (2 ^ 52) \<le> x / pow2 (expo x - 52)"
    and "x / pow2 (expo x - 52) < of_int (2 ^ 53)"
proof -
  have u: "pow2 (expo x) = pow2 (expo x - 52) * 2 ^ 52"
    by (rule pow2_shift52)
  have v: "pow2 (expo x + 1) = pow2 (expo x - 52) * 2 ^ 53"
    by (rule pow2_shift53)
  from expo_bounds(1) [OF assms] u have lo: "pow2 (expo x - 52) * 2 ^ 52 \<le> x"
    by simp
  from expo_bounds(2) [OF assms] v have hi: "x < pow2 (expo x - 52) * 2 ^ 53"
    by simp
  from lo pow2_pos [of "expo x - 52"] show "of_int (2 ^ 52) \<le> x / pow2 (expo x - 52)"
    by (simp add: field_simps)
  from hi pow2_pos [of "expo x - 52"] show "x / pow2 (expo x - 52) < of_int (2 ^ 53)"
    by (simp add: field_simps)
qed

lemma to_double_range:
  assumes "0 < x"
  shows "pow2 (expo x) \<le> to_double x" and "to_double x \<le> pow2 (expo x + 1)"
proof -
  let ?u = "pow2 (expo x - 52)"
  let ?m = "round_half_even (x / ?u)"
  have u: "pow2 (expo x) = 2 ^ 52 * ?u"
    using pow2_shift52 [of "expo x"] by (simp only: mult.commute)
  have v: "pow2 (expo x + 1) = 2 ^ 53 * ?u"
    using pow2_shift53 [of "expo x"] by (simp only: mult.commute)
  from scaled_range [OF assms] have "(2 ^ 52 :: int) \<le> ?m"
    using rhe_mono [of "of_int (2 ^ 52)" "x / ?u"] by (simp only: rhe_of_int)
  then have "(of_int (2 ^ 52) :: rat) \<le> of_int ?m" by (simp only: of_int_le_iff)
  then have "2 ^ 52 * ?u \<le> of_int ?m * ?u"
    using pow2_pos [of "expo x - 52"] by simp
  then show "pow2 (expo x) \<le> to_double x"
    using assms by (simp add: to_double_pos_eq u)
  from scaled_range [OF assms] have "?m \<le> (2 ^ 53 :: int)"
    using rhe_mono [of "x / ?u" "of_int (2 ^ 53)"] by (simp only: rhe_of_int)
  then have "(of_int ?m :: rat) \<le> of_int (2 ^ 53)" by (simp only: of_int_le_iff)
  then have "of_int ?m * ?u \<le> 2 ^ 53 * ?u"
    using pow2_pos [of "expo x - 52"] by simp
  then show "to_double x \<le> pow2 (expo x + 1)"
    using assms by (simp add: to_double_pos_eq v)
qed

lemma to_double_pos: "0 < x \<Longrightarrow> 0 < to_double x"
  using to_double_range(1) [of x] pow2_pos [of "expo x"] by simp

lemma to_double_mono_pos:
  assumes "0 < x" "x \<le> y"
  shows "to_double x \<le> to_double y"
proof (cases "expo x = expo y")
  case True
  from assms have y: "0 < y" by simp
  let ?u = "pow2 (expo y - 52)"
  from assms(2) pow2_pos [of "expo y - 52"] have "x / ?u \<le> y / ?u"
    by (simp add: divide_right_mono)
  then have "round_half_even (x / ?u) \<le> round_half_even (y / ?u)" by (rule rhe_mono)
  then have "(of_int (round_half_even (x / ?u)) :: rat) \<le> of_int (round_half_even (y / ?u))"
    by (simp only: of_int_le_iff)
  then have "of_int (round_half_even (x / ?u)) * ?u \<le> of_int (round_half_even (y / ?u)) * ?u"
    using pow2_pos [of "expo y - 52"] by simp
  then show ?thesis using assms y True by (simp add: to_double_pos_eq)
next
  case False
  from assms have y: "0 < y" by simp
  from False expo_mono [OF assms] have "expo x + 1 \<le> expo y" by simp
  then have "pow2 (expo x + 1) \<le> pow2 (expo y)" by (rule pow2_mono)
  with to_double_range(2) [OF assms(1)] to_double_range(1) [OF y] show ?thesis by simp
qed

lemma to_double_mono:
  assumes "x \<le> y"
  shows "to_double x \<le> to_double y"
proof -
  consider "0 < x" | "x = 0" "0 < y" | "x = 0" "y = 0" | "x < 0" "0 \<le> y" | "x < 0" "y < 0"
    using assms by linarith
  then show ?thesis
  proof cases
    case 1
    then show ?thesis using assms by (rule to_double_mono_pos)
  next
    case 2
    then show ?thesis using to_double_pos [of y] by (simp add: to_double_0)
  next
    case 3
    then show ?thesis by simp
  next
    case 4
    then have "0 < to_double (- x)" by (simp add: to_double_pos)
    then have "to_double x < 0" by (simp add: to_double_minus)
    moreover have "0 \<le> to_double y"
      using 4 to_double_pos [of y] by (cases "y = 0") (simp_all add: to_double_0)
    ultimately show ?thesis by simp
  next
    case 5
    then have "to_double (- y) \<le> to_double (- x)"
      using assms by (intro to_double_mono_pos) simp_all
    then show ?thesis by (simp add: to_double_minus)
  qed
qed


lemma to_double_055: "to_double (11 / 20) = (2476979795053773 / 4503599627370496)"
proof -
  have r: "round_half_even ((11 / 20) / pow2 (-1 - 52)) = 4953959590107546"
    by (rule rhe_near) (simp_all add: pow2_def)
  have "to_double (11 / 20) = of_int 4953959590107546 * pow2 (-1 - 52)"
    by (rule to_double_eval [OF _ _ _ r]) (simp_all add: pow2_def)
  then show ?thesis by (simp add: pow2_def)
qed

lemma to_double_015: "to_double (3 / 20) = (5404319552844595 / 36028797018963968)"
proof -
  have r: "round_half_even ((3 / 20) / pow2 (-3 - 52)) = 5404319552844595"
    by (rule rhe_near) (simp_all add: pow2_def)
  have "to_double (3 / 20) = of_int 5404319552844595 * pow2 (-3 - 52)"
    by (rule to_double_eval [OF _ _ _ r]) (simp_all add: pow2_def)
  then show ?thesis by (simp add: pow2_def)
qed

lemma to_double_005: "to_double (1 / 20) = (3602879701896397 / 72057594037927936)"
proof -
  have r: "round_half_even ((1 / 20) / pow2 (-5 - 52)) = 7205759403792794"
    by (rule rhe_near) (simp_all add: pow2_def)
  have "to_double (1 / 20) = of_int 7205759403792794 * pow2 (-5 - 52)"
    by (rule to_double_eval [OF _ _ _ r]) (simp_all add: pow2_def)
  then show ?thesis by (simp add: pow2_def)
qed

lemma to_double_095: "to_double (19 / 20) = (4278419646001971 / 4503599627370496)"
proof -
  have r: "round_half_even ((19 / 20) / pow2 (-1 - 52)) = 8556839292003942"
    by (rule rhe_near) (simp_all add: pow2_def)
  have "to_double (19 / 20) = of_int 8556839292003942 * pow2 (-1 - 52)"
    by (rule to_double_eval [OF _ _ _ r]) (simp_all add: pow2_def)
  then show ?thesis by (simp add: pow2_def)
qed

lemma to_double_01: "to_double (1 / 10) = (3602879701896397 / 36028797018963968)"
proof -
  have r: "round_half_even ((1 / 10) / pow2 (-4 - 52)) = 7205759403792794"
    by (rule rhe_near) (simp_all add: pow2_def)
  have "to_double (1 / 10) = of_int 7205759403792794 * pow2 (-4 - 52)"
    by (rule to_double_eval [OF _ _ _ r]) (simp_all add: pow2_def)
  then show ?thesis by (simp add: pow2_def)
qed

lemma to_double_05: "to_double (1 / 2) = (1 / 2)"
proof -
  have r: "round_half_even ((1 / 2) / pow2 (-1 - 52)) = 4503599627370496"
    by (rule rhe_near) (simp_all add: pow2_def)
  have "to_double (1 / 2) = of_int 4503599627370496 * pow2 (-1 - 52)"
    by (rule to_double_eval [OF _ _ _ r]) (simp_all add: pow2_def)
  then show ?thesis by (simp add: pow2_def)
qed

lemma to_double_065: "to_double (13 / 20) = (5854679515581645 / 9007199254740992)"
proof -
  have r: "round_half_even ((13 / 20) / pow2 (-1 - 52)) = 5854679515581645"
    by (rule rhe_near) (simp_all add: pow2_def)
  have "to_double (13 / 20) = of_int 5854679515581645 * pow2 (-1 - 52)"
    by (rule to_double_eval [OF _ _ _ r]) (simp_all add: pow2_def)
  then show ?thesis by (simp add: pow2_def)
qed

lemma to_double_075: "to_double (3 / 4) = (3 / 4)"
proof -
  have r: "round_half_even ((3 / 4) / pow2 (-1 - 52)) = 6755399441055744"
    by (rule rhe_near) (simp_all add: pow2_def)
  have "to_double (3 / 4) = of_int 6755399441055744 * pow2 (-1 - 52)"
    by (rule to_double_eval [OF _ _ _ r]) (simp_all add: pow2_def)
  then show ?thesis by (simp add: pow2_def)
qed

lemma base_expert: "to_double (25220157913274779 / 36028797018963968) = (6305039478318695 / 9007199254740992)"
proof -
  have r: "round_half_even ((25220157913274779 / 36028797018963968) / pow2 (-1 - 52)) = 6305039478318695"
    by (rule rhe_near) (simp_all add: pow2_def)
  have "to_double (25220157913274779 / 36028797018963968) = of_int 6305039478318695 * pow2 (-1 - 52)"
    by (rule to_double_eval [OF _ _ _ r]) (simp_all add: pow2_def)
  then show ?thesis by (simp add: pow2_def)
qed

lemma jitter_lowest: "to_double (3602879701896397 / 72057594037927936) = (3602879701896397 / 72057594037927936)"
proof -
  have r: "round_half_even ((3602879701896397 / 72057594037927936) / pow2 (-5 - 52)) = 7205759403792794"
    by (rule rhe_near) (simp_all add: pow2_def)
  have "to_double (3602879701896397 / 72057594037927936) = of_int 7205759403792794 * pow2 (-5 - 52)"
    by (rule to_double_eval [OF _ _ _ r]) (simp_all add: pow2_def)
  then show ?thesis by (simp add: pow2_def)
qed

lemma score_lowest: "to_double (46837436124653163 / 72057594037927936) = (5854679515581645 / 9007199254740992)"
proof -
  have r: "round_half_even ((46837436124653163 / 72057594037927936) / pow2 (-1 - 52)) = 5854679515581645"
    by (rule rhe_near) (simp_all add: pow2_def)
  have "to_double (46837436124653163 / 72057594037927936) = of_int 5854679515581645 * pow2 (-1 - 52)"
    by (rule to_double_eval [OF _ _ _ r]) (simp_all add: pow2_def)
  then show ?thesis by (simp add: pow2_def)
qed

lemma draw_highest: "to_double (4503599627370495 / 9007199254740992) = (4503599627370495 / 9007199254740992)"
proof -
  have r: "round_half_even ((4503599627370495 / 9007199254740992) / pow2 (-2 - 52)) = 9007199254740990"
    by (rule rhe_near) (simp_all add: pow2_def)
  have "to_double (4503599627370495 / 9007199254740992) = of_int 9007199254740990 * pow2 (-2 - 52)"
    by (rule to_double_eval [OF _ _ _ r]) (simp_all add: pow2_def)
  then show ?thesis by (simp add: pow2_def)
qed

lemma jitter_highest: "to_double (16225927682921333636998024606515 / 324518553658426726783156020576256) = (900719925474099 / 18014398509481984)"
proof -
  have r: "round_half_even ((16225927682921333636998024606515 / 324518553658426726783156020576256) / pow2 (-5 - 52)) = 7205759403792792"
    by (rule rhe_near) (simp_all add: pow2_def)
  have "to_double (16225927682921333636998024606515 / 324518553658426726783156020576256) = of_int 7205759403792792 * pow2 (-5 - 52)"
    by (rule to_double_eval [OF _ _ _ r]) (simp_all add: pow2_def)
  then show ?thesis by (simp add: pow2_def)
qed

lemma score_highest: "to_double (13510798882111489 / 18014398509481984) = (3 / 4)"
proof -
  have "round_half_even ((13510798882111489 / 18014398509481984) / pow2 (-1 - 52)) = (if even (6755399441055744::int) then 6755399441055744 else 6755399441055744 + 1)"
    by (rule rhe_tie) (simp add: pow2_def)
  then have r: "round_half_even ((13510798882111489 / 18014398509481984) / pow2 (-1 - 52)) = 6755399441055744"
    by simp
  have "to_double (13510798882111489 / 18014398509481984) = of_int 6755399441055744 * pow2 (-1 - 52)"
    by (rule to_double_eval [OF _ _ _ r]) (simp_all add: pow2_def)
  then show ?thesis by (simp add: pow2_def)
qed

section \<open>Range of the confidence score\<close>

text \<open>The jittered score grows with the draw.\<close>

lemma jitter_mono:
  assumes "r \<le> r'" "0 \<le> t"
  shows "fadd b (fmul (fsub r h) t) \<le> fadd b (fmul (fsub r' h) t)"
proof -
  from assms(1) have "to_double (r - h) \<le> to_double (r' - h)"
    by (intro to_double_mono) simp
  with assms(2) have "to_double (r - h) * t \<le> to_double (r' - h) * t"
    by (simp add: mult_right_mono)
  then have "to_double (to_double (r - h) * t) \<le> to_double (to_double (r' - h) * t)"
    by (rule to_double_mono)
  then have "b + to_double (to_double (r - h) * t) \<le> b + to_double (to_double (r' - h) * t)"
    by simp
  then show ?thesis
    unfolding fadd_def fmul_def fsub_def by (rule to_double_mono)
qed

text \<open>A double below \<open>1\<close> is at most \<open>1 - 2\<^sup>-\<^sup>5\<^sup>3\<close>.\<close>

lemma unit_draw_le:
  assumes "unit_draw r"
  shows "r \<le> 9007199254740991 / 9007199254740992"
proof (cases "r < 1 / 2")
  case True
  then show ?thesis by simp
next
  case False
  from assms have d: "to_double r = r" and r1: "r < 1"
    by (simp_all add: unit_draw_def is_double_def)
  from False have pos: "0 < r" by simp
  have e: "expo r = - 1"
    using pos False r1 by (intro expo_unique) (simp_all add: pow2_def)
  let ?m = "round_half_even (r / pow2 (- 1 - 52))"
  from to_double_pos_eq [OF pos] d e have "r = of_int ?m * pow2 (- 1 - 52)" by simp
  then have r: "r = of_int ?m / 9007199254740992" by (simp add: pow2_def)
  with r1 have "(of_int ?m :: rat) < of_int 9007199254740992" by simp
  then have "?m < 9007199254740992" by (simp only: of_int_less_iff)
  then have "?m \<le> 9007199254740991" by simp
  then have "(of_int ?m :: rat) \<le> of_int 9007199254740991" by (simp only: of_int_le_iff)
  then have "(of_int ?m :: rat) / 9007199254740992 \<le> 9007199254740991 / 9007199254740992"
    by simp
  with r show ?thesis by simp
qed

lemma base_expert_low:
  "fadd (to_double (11 / 20)) (to_double (3 / 20)) = 6305039478318695 / 9007199254740992"
  by (simp add: fadd_def to_double_055 to_double_015 base_expert)

lemma score_at_lowest_draw:
  "fadd (6305039478318695 / 9007199254740992) (fmul (fsub 0 (to_double (1 / 2))) (to_double (1 / 10)))
     = 5854679515581645 / 9007199254740992"
proof -
  have a: "fsub 0 (to_double (1 / 2)) = - (1 / 2)"
    by (simp add: fsub_def to_double_05 to_double_minus)
  have b: "fmul (- (1 / 2)) (to_double (1 / 10)) = - (3602879701896397 / 72057594037927936)"
    by (simp add: fmul_def to_double_01 to_double_minus jitter_lowest)
  show ?thesis
    by (simp add: a b fadd_def score_lowest)
qed

lemma score_at_highest_draw:
  "fadd (6305039478318695 / 9007199254740992)
     (fmul (fsub (9007199254740991 / 9007199254740992) (to_double (1 / 2))) (to_double (1 / 10))) = 3 / 4"
proof -
  have a: "fsub (9007199254740991 / 9007199254740992) (to_double (1 / 2))
      = 4503599627370495 / 9007199254740992"
    by (simp add: fsub_def to_double_05 draw_highest)
  have b: "fmul (4503599627370495 / 9007199254740992) (to_double (1 / 10))
      = 900719925474099 / 18014398509481984"
    by (simp add: fmul_def to_double_01 jitter_highest)
  show ?thesis
    by (simp add: a b fadd_def score_highest)
qed

text \<open>
  C4: for every persona, every text and every state of every random source, the confidence
  score lies in the closed interval from \<open>0.05\<close> to \<open>0.95\<close>, whether the bounds are read
  as exact numbers or as the doubles nearest to them.
\<close>

theorem score_confidence_range:
  "0.05 \<le> fst (score_confidence R p text g) \<and> fst (score_confidence R p text g) \<le> 0.95
   \<and> to_double 0.05 \<le> fst (score_confidence R p text g)
   \<and> fst (score_confidence R p text g) \<le> to_double 0.95"
proof -
  obtain c g' where sc: "score_confidence R p text g = (c, g')"
    by (metis prod.exhaust)
  then obtain x where c: "c = max (to_double 0.05) (min (to_double 0.95) x)"
    by (auto simp add: score_confidence_def Let_def split: prod.splits)
  have "to_double 0.05 \<le> to_double 0.95"
    by (rule to_double_mono) simp
  with c have "to_double 0.05 \<le> c" and "c \<le> to_double 0.95"
    by simp_all
  moreover have "0.05 \<le> to_double 0.05" and "to_double 0.95 \<le> 0.95"
    by (simp_all add: to_double_005 to_double_095)
  ultimately show ?thesis using sc by simp
qed

text \<open>
  C5: for an expert persona of low risk aversion and a text without hedge words, the
  confidence score lies between \<open>0.65\<close> and \<open>0.75\<close> whenever the draw is a double in
  \<open>[0, 1)\<close>; neither clamp binds. At the largest draw the last sum is a tie that rounds
  to the even neighbour, which is \<open>0.75\<close> itself.
\<close>

theorem score_confidence_expert_low:
  assumes "tech_literacy p = ''expert''" and "risk_aversion p = ''low''"
    and "\<not> any_in hedge_words (lower text)"
    and "unit_draw (fst (rs_random R g))"
  shows "0.65 \<le> fst (score_confidence R p text g) \<and> fst (score_confidence R p text g) \<le> 0.75
    \<and> to_double 0.65 \<le> fst (score_confidence R p text g)
    \<and> fst (score_confidence R p text g) \<le> to_double 0.75"
proof -
  obtain r g' where d: "rs_random R g = (r, g')"
    by (metis prod.exhaust)
  let ?b = "6305039478318695 / 9007199254740992 :: rat"
  let ?x = "fadd ?b (fmul (fsub r (to_double (1 / 2))) (to_double (1 / 10)))"
  from assms(2) have nh: "risk_aversion p \<noteq> ''high''" by simp
  have sc: "fst (score_confidence R p text g)
      = max (to_double (1 / 20)) (min (to_double (19 / 20)) ?x)"
    using assms(1,3) nh d by (simp add: score_confidence_def Let_def base_expert_low)
  from assms(4) d have u: "unit_draw r" by simp
  then have r0: "0 \<le> r" by (simp add: unit_draw_def)
  have t: "0 \<le> to_double (1 / 10)" by (simp add: to_double_01)
  from jitter_mono [OF r0 t, of ?b "to_double (1 / 2)"] score_at_lowest_draw
  have lo: "5854679515581645 / 9007199254740992 \<le> ?x" by simp
  from jitter_mono [OF unit_draw_le [OF u] t, of ?b "to_double (1 / 2)"] score_at_highest_draw
  have hi: "?x \<le> 3 / 4" by simp
  from lo hi have "max (to_double (1 / 20)) (min (to_double (19 / 20)) ?x) = ?x"
    by (simp add: to_double_005 to_double_095)
  with sc have "fst (score_confidence R p text g) = ?x" by simp
  with lo hi show ?thesis by (simp add: to_double_065 to_double_075)
qed

lemma sample_draw: "unit_draw (fst (rs_random counter_source 0))"
  by (simp add: counter_source_def unit_draw_def is_double_def to_double_0)

lemma sample_text_plain: "\<not> any_in hedge_words (lower ''Looks good to me'')"
  by code_simp

text \<open>The theorem at a concrete input.\<close>

theorem score_confidence_expert_low_witness:
  "tech_literacy sample_persona = ''expert'' \<and> risk_aversion sample_persona = ''low''
   \<and> \<not> any_in hedge_words (lower ''Looks good to me'')
   \<and> unit_draw (fst (rs_random counter_source 0))
   \<and> 0.65 \<le> fst (score_confidence counter_source sample_persona ''Looks good to me'' 0)
   \<and> fst (score_confidence counter_source sample_persona ''Looks good to me'' 0) \<le> 0.75"
proof -
  have a: "tech_literacy sample_persona = ''expert''" and b: "risk_aversion sample_persona = ''low''"
    by (simp_all add: sample_persona_def)
  from score_confidence_expert_low [OF a b sample_text_plain sample_draw] a b
    sample_text_plain sample_draw
  show ?thesis by blast
qed

section \<open>The turn loops\<close>

text \<open>
  Each round of a loop appends two messages and leaves the other fields of the
  conversation alone; with a random source that keeps its range a loop runs to its end.
\<close>

lemma choice_returns:
  assumes "randbelow_in_range R" "xs \<noteq> []"
  shows "\<exists>q g'. choice R xs g = Inr (q, g')"
proof -
  obtain i g' where d: "rs_randbelow R (length xs) g = (i, g')"
    by (cases "rs_randbelow R (length xs) g")
  from assms have "fst (rs_randbelow R (length xs) g) < length xs"
    by (simp add: randbelow_in_range_def)
  with d have "i < length xs" by simp
  with d assms(2) show ?thesis by (simp add: choice_def)
qed

lemma messages_append_message: "messages (append_message m conv) = messages conv @ [m]"
  by (simp add: append_message_def)

lemma fields_append_message:
  "feature_title (append_message m conv) = feature_title conv"
  "feature_spec (append_message m conv) = feature_spec conv"
  by (simp_all add: append_message_def)

lemma follow_ups_reply:
  "follow_ups (snd (fst (heuristic_persona_reply R p u spec g))) = extract_followups p spec"
  by (simp add: heuristic_persona_reply_def Let_def split: prod.splits)

text \<open>The roles that \<open>n\<close> rounds of a loop add: \<open>a\<close> then \<open>b\<close>, \<open>n\<close> times.\<close>

lemma heuristic_loop_shape:
  "heuristic_loop R p spec fu ts (conv, g) = Inr (conv', g') \<Longrightarrow>
     feature_title conv' = feature_title conv \<and> feature_spec conv' = feature_spec conv
     \<and> (\<exists>ms. messages conv' = messages conv @ ms
           \<and> map role ms = concat (replicate (length ts) [''user'', ''persona'']))"
proof (induction ts arbitrary: conv g)
  case Nil
  then show ?case by simp
next
  case (Cons t ts)
  from Cons.prems obtain q g1 where c: "choice R fu g = Inr (q, g1)"
    by (auto split: sum.splits)
  obtain rep m2 g2 where h: "heuristic_persona_reply R p q spec g1 = ((rep, m2), g2)"
    by (metis prod.exhaust)
  let ?c1 = "append_message \<lparr>role = ''user'', content = q, meta = NoMeta\<rparr> conv"
  let ?c2 = "append_message \<lparr>role = ''persona'', content = rep, meta = ReasoningMeta m2\<rparr> ?c1"
  from Cons.prems c h have "heuristic_loop R p spec fu ts (?c2, g2) = Inr (conv', g')"
    by simp
  from Cons.IH [OF this] obtain ms where
    f: "feature_title conv' = feature_title ?c2" "feature_spec conv' = feature_spec ?c2"
    and m: "messages conv' = messages ?c2 @ ms"
    and r: "map role ms = concat (replicate (length ts) [''user'', ''persona''])"
    by blast
  let ?ms = "\<lparr>role = ''user'', content = q, meta = NoMeta\<rparr>
    # \<lparr>role = ''persona'', content = rep, meta = ReasoningMeta m2\<rparr> # ms"
  from m have "messages conv' = messages conv @ ?ms"
    by (simp add: messages_append_message)
  moreover from r have "map role ?ms = concat (replicate (length (t # ts)) [''user'', ''persona''])"
    by simp
  ultimately show ?case using f by (simp only: fields_append_message) blast
qed

lemma heuristic_loop_returns:
  assumes "randbelow_in_range R" "fu \<noteq> []"
  shows "\<exists>conv' g'. heuristic_loop R p spec fu ts (conv, g) = Inr (conv', g')"
proof (induction ts arbitrary: conv g)
  case Nil
  then show ?case by simp
next
  case (Cons t ts)
  from choice_returns [OF assms] obtain q g1 where c: "choice R fu g = Inr (q, g1)"
    by blast
  obtain rep m2 g2 where h: "heuristic_persona_reply R p q spec g1 = ((rep, m2), g2)"
    by (metis prod.exhaust)
  from Cons.IH c h show ?case by simp
qed

lemma agent_loop_shape:
  "agent_loop R T p spec ts (conv, a, prompt, g) = Inr (conv', g') \<Longrightarrow>
     feature_title conv' = feature_title conv \<and> feature_spec conv' = feature_spec conv
     \<and> (\<exists>ms. messages conv' = messages conv @ ms
           \<and> map role ms = concat (replicate (length ts) [''persona'', ''user'']))"
proof (induction ts arbitrary: conv a prompt g)
  case Nil
  then show ?case by simp
next
  case (Cons t ts)
  obtain resp a1 where l: "listen_and_act T a prompt = (resp, a1)"
    by (metis prod.exhaust)
  from Cons.prems l obtain q g1 where c: "choice R (extract_followups p spec) g = Inr (q, g1)"
    by (auto simp add: Let_def split: sum.splits)
  let ?m1 = "\<lparr>role = ''persona'', content = resp, meta = AgentMeta ''tinytroupe'' (t + 1)\<rparr>"
  let ?m2 = "\<lparr>role = ''user'', content = ''Follow-up: '' @ q, meta = NoMeta\<rparr>"
  let ?c2 = "append_message ?m2 (append_message ?m1 conv)"
  from Cons.prems l c
  have "agent_loop R T p spec ts (?c2, a1, ''Follow-up: '' @ q, g1) = Inr (conv', g')"
    by (simp add: Let_def)
  from Cons.IH [OF this] obtain ms where
    f: "feature_title conv' = feature_title ?c2" "feature_spec conv' = feature_spec ?c2"
    and m: "messages conv' = messages ?c2 @ ms"
    and r: "map role ms = concat (replicate (length ts) [''persona'', ''user''])"
    by blast
  from m have "messages conv' = messages conv @ (?m1 # ?m2 # ms)"
    by (simp add: messages_append_message)
  moreover from r
  have "map role (?m1 # ?m2 # ms) = concat (replicate (length (t # ts)) [''persona'', ''user''])"
    by simp
  ultimately show ?case using f by (simp only: fields_append_message) blast
qed

lemma agent_loop_returns:
  assumes "randbelow_in_range R"
  shows "\<exists>conv' g'. agent_loop R T p spec ts (conv, a, prompt, g) = Inr (conv', g')"
proof (induction ts arbitrary: conv a prompt g)
  case Nil
  then show ?case by simp
next
  case (Cons t ts)
  obtain resp a1 where l: "listen_and_act T a prompt = (resp, a1)"
    by (metis prod.exhaust)
  from choice_returns [OF assms extract_followups_nonempty]
  obtain q g1 where c: "choice R (extract_followups p spec) g = Inr (q, g1)"
    by blast
  from Cons.IH l c show ?case by (simp add: Let_def)
qed

lemma length_py_range: "length (py_range a b) = nat (b - a)"
  by (simp add: py_range_def)

lemma simulate_heuristic_eq:
  assumes "\<not> agent_enabled env"
    and "randint R 1000 9999 (rs_seed R sd) = (n, g1)"
    and "heuristic_persona_reply R p (user_open_text title spec) spec g1 = ((rep, m1), g2)"
  shows "simulate R T env g0 p title spec turns sd
    = heuristic_loop R p spec (extract_followups p spec) (py_range 1 turns)
        (append_message \<lparr>role = ''persona'', content = rep, meta = ReasoningMeta m1\<rparr>
           (append_message \<lparr>role = ''user'', content = user_open_text title spec, meta = NoMeta\<rparr>
              (new_conversation env n p title spec sd)), g2)"
proof -
  from follow_ups_reply [of R p "user_open_text title spec" spec g1] assms(3)
  have "follow_ups m1 = extract_followups p spec" by simp
  with assms show ?thesis by (simp add: simulate_def Let_def)
qed

lemma simulate_agent_eq:
  assumes "agent_enabled env"
    and "randint R 1000 9999 (rs_seed R sd) = (n, g1)"
  shows "\<exists>a. simulate R T env g0 p title spec turns sd
    = agent_loop R T p spec (py_range 0 turns)
        (append_message \<lparr>role = ''user'', content = user_open_text title spec, meta = NoMeta\<rparr>
           (new_conversation env n p title spec sd), a, user_open_text title spec, g1)"
  using assms by (auto simp add: simulate_def Let_def)

lemma simulate_returns:
  assumes "randbelow_in_range R"
  shows "\<exists>conv g'. simulate R T env g0 p title spec turns sd = Inr (conv, g')"
proof -
  obtain n g1 where d: "randint R 1000 9999 (rs_seed R sd) = (n, g1)"
    by (metis prod.exhaust)
  show ?thesis
  proof (cases "agent_enabled env")
    case True
    from simulate_agent_eq [OF True d] agent_loop_returns [OF assms] show ?thesis
      by metis
  next
    case False
    obtain rep m1 g2 where
      h: "heuristic_persona_reply R p (user_open_text title spec) spec g1 = ((rep, m1), g2)"
      by (metis prod.exhaust)
    from simulate_heuristic_eq [OF False d h]
      heuristic_loop_returns [OF assms extract_followups_nonempty]
    show ?thesis by metis
  qed
qed

text \<open>The fields of a new conversation, and what a call returns on each branch.\<close>

lemma new_conversation_fields:
  "feature_title (new_conversation env n p title spec sd)
     = (if strip title = [] then ''Untitled Feature'' else strip title)"
  "feature_spec (new_conversation env n p title spec sd) = strip spec"
  "messages (new_conversation env n p title spec sd) = []"
  by (simp_all add: new_conversation_def)

lemma roles_heuristic:
  assumes "\<not> agent_enabled env"
    and "simulate R T env g0 p title spec turns sd = Inr (conv, g')"
  shows "feature_title conv = (if strip title = [] then ''Untitled Feature'' else strip title)"
    and "feature_spec conv = strip spec"
    and "\<exists>m1 ms. messages conv
          = \<lparr>role = ''user'', content = user_open_text title spec, meta = NoMeta\<rparr>
            # \<lparr>role = ''persona'',
                content = fst (fst (heuristic_persona_reply R p (user_open_text title spec) spec
                  (snd (randint R 1000 9999 (rs_seed R sd))))),
                meta = ReasoningMeta m1\<rparr> # ms
        \<and> map role ms = concat (replicate (nat (turns - 1)) [''user'', ''persona''])"
proof -
  obtain n g1 where d: "randint R 1000 9999 (rs_seed R sd) = (n, g1)"
    by (metis prod.exhaust)
  obtain rep m1 g2 where
    h: "heuristic_persona_reply R p (user_open_text title spec) spec g1 = ((rep, m1), g2)"
    by (metis prod.exhaust)
  let ?u = "\<lparr>role = ''user'', content = user_open_text title spec, meta = NoMeta\<rparr>"
  let ?r = "\<lparr>role = ''persona'', content = rep, meta = ReasoningMeta m1\<rparr>"
  let ?c = "append_message ?r (append_message ?u (new_conversation env n p title spec sd))"
  from simulate_heuristic_eq [OF assms(1) d h, of T g0 turns] assms(2)
  have "heuristic_loop R p spec (extract_followups p spec) (py_range 1 turns) (?c, g2)
    = Inr (conv, g')" by simp
  from heuristic_loop_shape [OF this] obtain ms where
    f: "feature_title conv = feature_title ?c" "feature_spec conv = feature_spec ?c"
    and m: "messages conv = messages ?c @ ms"
    and r: "map role ms = concat (replicate (length (py_range 1 turns)) [''user'', ''persona''])"
    by blast
  from f show "feature_title conv = (if strip title = [] then ''Untitled Feature'' else strip title)"
    and "feature_spec conv = strip spec"
    by (simp_all only: fields_append_message new_conversation_fields)
  from m have "messages conv = ?u # ?r # ms"
    by (simp add: messages_append_message new_conversation_fields)
  with r d h show "\<exists>m1 ms. messages conv
          = \<lparr>role = ''user'', content = user_open_text title spec, meta = NoMeta\<rparr>
            # \<lparr>role = ''persona'',
                content = fst (fst (heuristic_persona_reply R p (user_open_text title spec) spec
                  (snd (randint R 1000 9999 (rs_seed R sd))))),
                meta = ReasoningMeta m1\<rparr> # ms
        \<and> map role ms = concat (replicate (nat (turns - 1)) [''user'', ''persona''])"
    by (simp add: length_py_range)
qed

lemma roles_agent:
  assumes "agent_enabled env"
    and "simulate R T env g0 p title spec turns sd = Inr (conv, g')"
  shows "feature_title conv = (if strip title = [] then ''Untitled Feature'' else strip title)"
    and "feature_spec conv = strip spec"
    and "\<exists>ms. messages conv
          = \<lparr>role = ''user'', content = user_open_text title spec, meta = NoMeta\<rparr> # ms
        \<and> map role ms = concat (replicate (nat turns) [''persona'', ''user''])"
proof -
  obtain n g1 where d: "randint R 1000 9999 (rs_seed R sd) = (n, g1)"
    by (metis prod.exhaust)
  let ?u = "\<lparr>role = ''user'', content = user_open_text title spec, meta = NoMeta\<rparr>"
  let ?c = "append_message ?u (new_conversation env n p title spec sd)"
  from simulate_agent_eq [OF assms(1) d, of T g0 p title spec turns] assms(2)
  obtain a where "agent_loop R T p spec (py_range 0 turns) (?c, a, user_open_text title spec, g1)
    = Inr (conv, g')" by auto
  from agent_loop_shape [OF this] obtain ms where
    f: "feature_title conv = feature_title ?c" "feature_spec conv = feature_spec ?c"
    and m: "messages conv = messages ?c @ ms"
    and r: "map role ms = concat (replicate (length (py_range 0 turns)) [''persona'', ''user''])"
    by blast
  from f show "feature_title conv = (if strip title = [] then ''Untitled Feature'' else strip title)"
    and "feature_spec conv = strip spec"
    by (simp_all only: fields_append_message new_conversation_fields)
  from m have "messages conv = ?u # ms"
    by (simp add: messages_append_message new_conversation_fields)
  with r show "\<exists>ms. messages conv
          = \<lparr>role = ''user'', content = user_open_text title spec, meta = NoMeta\<rparr> # ms
        \<and> map role ms = concat (replicate (nat turns) [''persona'', ''user''])"
    by (simp add: length_py_range)
qed

lemma alternating_pairs: "alternating a b (concat (replicate n [a, b]))"
  by (induction n) simp_all

lemma count_first: "a \<noteq> b \<Longrightarrow> length (filter (\<lambda>x. x = a) (concat (replicate n [a, b]))) = n"
  by (induction n) simp_all

lemma count_second: "a \<noteq> b \<Longrightarrow> length (filter (\<lambda>x. x = b) (concat (replicate n [a, b]))) = n"
  by (induction n) simp_all

lemma role_count_roles:
  "role_count r conv = length (filter (\<lambda>x. x = r) (map role (messages conv)))"
  by (simp add: role_count_def filter_map o_def)

lemma user_neq_persona: "''user'' \<noteq> ''persona''"
  by simp

text \<open>The roles of a conversation, in both branches.\<close>

lemma simulate_roles:
  assumes "simulate R T env g0 p title spec turns sd = Inr (conv, g')"
  shows "map role (messages conv)
    = (if agent_enabled env then ''user'' # concat (replicate (nat turns) [''persona'', ''user''])
       else ''user'' # ''persona'' # concat (replicate (nat (turns - 1)) [''user'', ''persona'']))"
proof (cases "agent_enabled env")
  case True
  from roles_agent(3) [OF True assms] True show ?thesis by auto
next
  case False
  from roles_heuristic(3) [OF False assms] False show ?thesis by auto
qed

lemma simulate_alternating:
  assumes "simulate R T env g0 p title spec turns sd = Inr (conv, g')"
  shows "alternating ''user'' ''persona'' (map role (messages conv))"
  using alternating_pairs [of "''persona''" "''user''" "nat turns"]
    alternating_pairs [of "''user''" "''persona''" "nat (turns - 1)"]
  by (simp only: simulate_roles [OF assms] alternating.simps split: if_split) simp

lemma simulate_persona_count:
  assumes "simulate R T env g0 p title spec turns sd = Inr (conv, g')"
  shows "role_count ''persona'' conv
    = (if agent_enabled env then nat turns else Suc (nat (turns - 1)))"
  using count_first [of "''persona''" "''user''" "nat turns"]
    count_second [of "''user''" "''persona''" "nat (turns - 1)"]
  by (simp add: role_count_roles simulate_roles [OF assms])

lemma simulate_user_count:
  assumes "simulate R T env g0 p title spec turns sd = Inr (conv, g')"
  shows "role_count ''user'' conv
    = (if agent_enabled env then Suc (nat turns) else Suc (nat (turns - 1)))"
  using count_second [of "''persona''" "''user''" "nat turns"]
    count_first [of "''user''" "''persona''" "nat (turns - 1)"]
  by (simp add: role_count_roles simulate_roles [OF assms])

lemma counter_source_in_range: "randbelow_in_range counter_source"
  by (simp add: randbelow_in_range_def counter_source_def)

lemma offline_env_heuristic: "\<not> agent_enabled offline_env"
  by (simp add: agent_enabled_def offline_env_def)

lemma result_conversation_Inr: "result_conversation (Inr (conv, g)) = Some conv"
  by (simp add: result_conversation_def)

section \<open>Shape of a conversation\<close>

text \<open>
  C2, as amended: in every conversation that \<open>simulate\<close> returns the messages start with
  a user message and alternate strictly between user and persona, and for a turn count of
  at least one the number of persona messages is the turn count. With a random source
  that keeps its range the call returns a conversation.
\<close>

theorem simulate_alternates_and_counts:
  "(simulate R T env g0 p title spec turns sd = Inr (conv, g') \<longrightarrow>
      (\<exists>m ms. messages conv = m # ms \<and> role m = ''user'')
      \<and> alternating ''user'' ''persona'' (map role (messages conv))
      \<and> (1 \<le> turns \<longrightarrow> int (role_count ''persona'' conv) = turns))
   \<and> (randbelow_in_range R \<longrightarrow>
        (\<exists>conv g'. simulate R T env g0 p title spec turns sd = Inr (conv, g')))"
proof -
  have "(\<exists>m ms. messages conv = m # ms \<and> role m = ''user'')
      \<and> alternating ''user'' ''persona'' (map role (messages conv))
      \<and> (1 \<le> turns \<longrightarrow> int (role_count ''persona'' conv) = turns)"
    if s: "simulate R T env g0 p title spec turns sd = Inr (conv, g')"
  proof -
    have a: "alternating ''user'' ''persona'' (map role (messages conv))"
      using s by (rule simulate_alternating)
    have "\<exists>rs. map role (messages conv) = ''user'' # rs"
      by (simp add: simulate_roles [OF s])
    then have h: "\<exists>m ms. messages conv = m # ms \<and> role m = ''user''"
      by (cases "messages conv") auto
    have c: "1 \<le> turns \<longrightarrow> int (role_count ''persona'' conv) = turns"
      by (simp add: simulate_persona_count [OF s])
    from h a c show ?thesis by blast
  qed
  then show ?thesis
    using simulate_returns [of R T env g0 p title spec turns sd] by blast
qed

text \<open>The theorem at a concrete input.\<close>

theorem simulate_alternates_and_counts_witness:
  "randbelow_in_range counter_source \<and> (1::int) \<le> 3
   \<and> (\<exists>conv g'. simulate counter_source echo_agent offline_env 0 sample_persona
          ''Dark mode'' ''Add dark mode'' 3 42 = Inr (conv, g')
      \<and> (\<exists>m ms. messages conv = m # ms \<and> role m = ''user'')
      \<and> alternating ''user'' ''persona'' (map role (messages conv))
      \<and> int (role_count ''persona'' conv) = 3)"
proof -
  from simulate_alternates_and_counts [of counter_source echo_agent offline_env 0
      sample_persona "''Dark mode''" "''Add dark mode''" 3 42]
    counter_source_in_range
  obtain conv g' where s: "simulate counter_source echo_agent offline_env 0 sample_persona
      ''Dark mode'' ''Add dark mode'' 3 42 = Inr (conv, g')"
    by blast
  from simulate_alternates_and_counts [of counter_source echo_agent offline_env 0
      sample_persona "''Dark mode''" "''Add dark mode''" 3 42 conv g'] s
  have "(\<exists>m ms. messages conv = m # ms \<and> role m = ''user'')
      \<and> alternating ''user'' ''persona'' (map role (messages conv))
      \<and> int (role_count ''persona'' conv) = 3"
    by simp
  with s counter_source_in_range show ?thesis by auto
qed

text \<open>
  C2 as stated fails for a turn count below one: on the heuristic branch a request for
  zero turns gives one persona message.
\<close>

theorem simulate_zero_turns_counterexample:
  "map_option (role_count ''persona'')
     (result_conversation (simulate counter_source echo_agent offline_env 0 sample_persona
        ''Dark mode'' ''Add dark mode'' 0 42)) = Some 1"
proof -
  from simulate_returns [OF counter_source_in_range] obtain conv g'
    where s: "simulate counter_source echo_agent offline_env 0 sample_persona
        ''Dark mode'' ''Add dark mode'' 0 42 = Inr (conv, g')" by blast
  from simulate_persona_count [OF s] offline_env_heuristic
  have "role_count ''persona'' conv = 1" by simp
  with s show ?thesis by (simp add: result_conversation_Inr)
qed

text \<open>
  C3, as amended: on the heuristic branch a conversation returned for four turns has
  exactly four persona messages and exactly four user messages, the opener and three
  follow-up questions. With a random source that keeps its range the call returns a
  conversation.
\<close>

theorem simulate_four_turns:
  "(\<not> agent_enabled env \<and> simulate R T env g0 p title spec 4 sd = Inr (conv, g') \<longrightarrow>
      role_count ''persona'' conv = 4 \<and> role_count ''user'' conv = 4)
   \<and> (randbelow_in_range R \<longrightarrow>
        (\<exists>conv g'. simulate R T env g0 p title spec 4 sd = Inr (conv, g')))"
proof -
  have "role_count ''persona'' conv = 4 \<and> role_count ''user'' conv = 4"
    if h: "\<not> agent_enabled env" and s: "simulate R T env g0 p title spec 4 sd = Inr (conv, g')"
    using simulate_persona_count [OF s] simulate_user_count [OF s] h by simp
  then show ?thesis
    using simulate_returns [of R T env g0 p title spec 4 sd] by blast
qed

text \<open>The theorem at a concrete input.\<close>

theorem simulate_four_turns_witness:
  "\<not> agent_enabled offline_env \<and> randbelow_in_range counter_source
   \<and> (\<exists>conv g'. simulate counter_source echo_agent offline_env 0 plain_persona
          ''Export'' ''Add a CSV export'' 4 7 = Inr (conv, g')
      \<and> role_count ''persona'' conv = 4 \<and> role_count ''user'' conv = 4)"
proof -
  from simulate_four_turns [of offline_env counter_source echo_agent 0 plain_persona
      "''Export''" "''Add a CSV export''" 7]
    counter_source_in_range
  obtain conv g' where s: "simulate counter_source echo_agent offline_env 0 plain_persona
      ''Export'' ''Add a CSV export'' 4 7 = Inr (conv, g')"
    by blast
  from simulate_four_turns [of offline_env counter_source echo_agent 0 plain_persona
      "''Export''" "''Add a CSV export''" 7 conv g'] s offline_env_heuristic
  have "role_count ''persona'' conv = 4 \<and> role_count ''user'' conv = 4"
    by simp
  with s counter_source_in_range offline_env_heuristic show ?thesis by blast
qed

text \<open>
  C3 as stated asks for five user messages; the heuristic branch produces four.
\<close>

theorem simulate_four_turns_counterexample:
  "map_option (role_count ''user'')
     (result_conversation (simulate counter_source echo_agent offline_env 0 sample_persona
        ''Dark mode'' ''Add dark mode'' 4 42)) = Some 4"
proof -
  from simulate_returns [OF counter_source_in_range] obtain conv g'
    where s: "simulate counter_source echo_agent offline_env 0 sample_persona
        ''Dark mode'' ''Add dark mode'' 4 42 = Inr (conv, g')" by blast
  from simulate_user_count [OF s] offline_env_heuristic
  have "role_count ''user'' conv = 4" by simp
  with s show ?thesis by (simp add: result_conversation_Inr)
qed

text \<open>
  C9: on the heuristic branch a call with a turn count below one raises no error. It
  returns a conversation whose messages are the opening user message and the reply to it,
  one user message and one persona message.
\<close>

theorem simulate_no_turns:
  assumes "\<not> agent_enabled env" and "turns < 1"
  shows "\<exists>conv g' m1. simulate R T env g0 p title spec turns sd = Inr (conv, g')
    \<and> messages conv
        = [\<lparr>role = ''user'', content = user_open_text title spec, meta = NoMeta\<rparr>,
           \<lparr>role = ''persona'',
             content = fst (fst (heuristic_persona_reply R p (user_open_text title spec) spec
               (snd (randint R 1000 9999 (rs_seed R sd))))),
             meta = ReasoningMeta m1\<rparr>]
    \<and> role_count ''user'' conv = 1 \<and> role_count ''persona'' conv = 1"
proof -
  obtain n g1 where d: "randint R 1000 9999 (rs_seed R sd) = (n, g1)"
    by (metis prod.exhaust)
  obtain rep m1 g2 where
    h: "heuristic_persona_reply R p (user_open_text title spec) spec g1 = ((rep, m1), g2)"
    by (metis prod.exhaust)
  from assms(2) have e: "py_range 1 turns = []" by (simp add: py_range_def)
  from simulate_heuristic_eq [OF assms(1) d h, of T g0 turns] e
  obtain conv where s: "simulate R T env g0 p title spec turns sd = Inr (conv, g2)"
    by simp
  from roles_heuristic(3) [OF assms(1) s] assms(2) obtain m1' where
    m: "messages conv
        = [\<lparr>role = ''user'', content = user_open_text title spec, meta = NoMeta\<rparr>,
           \<lparr>role = ''persona'',
             content = fst (fst (heuristic_persona_reply R p (user_open_text title spec) spec
               (snd (randint R 1000 9999 (rs_seed R sd))))),
             meta = ReasoningMeta m1'\<rparr>]"
    by auto
  from simulate_persona_count [OF s] simulate_user_count [OF s] assms
  have "role_count ''user'' conv = 1 \<and> role_count ''persona'' conv = 1" by simp
  with s m show ?thesis by blast
qed

text \<open>The theorem at a concrete input.\<close>

theorem simulate_no_turns_witness:
  "\<not> agent_enabled offline_env \<and> (0::int) < 1
   \<and> (\<exists>conv g' m1. simulate counter_source echo_agent offline_env 5 sample_persona
          ''Dark mode'' ''Add dark mode'' 0 42 = Inr (conv, g')
      \<and> messages conv
          = [\<lparr>role = ''user'', content = user_open_text ''Dark mode'' ''Add dark mode'',
               meta = NoMeta\<rparr>,
             \<lparr>role = ''persona'',
               content = fst (fst (heuristic_persona_reply counter_source sample_persona
                 (user_open_text ''Dark mode'' ''Add dark mode'') ''Add dark mode''
                 (snd (randint counter_source 1000 9999 (rs_seed counter_source 42))))),
               meta = ReasoningMeta m1\<rparr>]
      \<and> role_count ''user'' conv = 1 \<and> role_count ''persona'' conv = 1)"
  using simulate_no_turns [OF offline_env_heuristic, of 0 counter_source echo_agent 5
      sample_persona "''Dark mode''" "''Add dark mode''" 42]
    offline_env_heuristic
  by simp

section \<open>Title, specification and opener\<close>





section \<open>Determinism\<close>







end
